theory Spec2Isabelle
  imports Complex_Main "HOL-Library.Char_ord" "HOL-Library.List_Lexorder"
    "HOL-Library.Product_Lexorder" "HOL-Library.Sublist"
begin

section \<open>Data frames\<close>

text \<open>
  \<^verbatim>\<open>Dashboard.py\<close> is a script over six pandas data frames read from CSV files.
  A cell of a frame is a missing value (NaN), a Python \<^verbatim>\<open>str\<close>, an \<^verbatim>\<open>int64\<close> or a
  \<^verbatim>\<open>float64\<close>. Floats are modelled by the rational number they denote: the script only
  compares and adds them, and comparison of floats is exact.
\<close>

datatype cell = NaN | Str string | I64 int | F64 rat

text \<open>The exceptions the modelled statements can raise.\<close>

datatype error = KeyError | AttributeError | TypeError | ValueError | NameError

text \<open>
  A frame is its column labels and its rows, in order. A row is read by position; a row
  with fewer fields than the header is padded with NaN, as \<^verbatim>\<open>read_csv\<close> does.
\<close>

record table =
  columns :: "string list"
  rows :: "cell list list"

fun index_of :: "'a \<Rightarrow> 'a list \<Rightarrow> nat" where
  "index_of x [] = 0"
| "index_of x (y # ys) = (if x = y then 0 else Suc (index_of x ys))"

definition cell_at :: "cell list \<Rightarrow> nat \<Rightarrow> cell" where
  "cell_at r i = (if i < length r then r ! i else NaN)"

definition get_cell :: "table \<Rightarrow> string \<Rightarrow> cell list \<Rightarrow> cell" where
  "get_cell df col r = cell_at r (index_of col (columns df))"

text \<open>\<^verbatim>\<open>df[col]\<close>: the column as a list of cells, \<^verbatim>\<open>KeyError\<close> when there is none.\<close>

definition getitem :: "table \<Rightarrow> string \<Rightarrow> error + cell list" where
  "getitem df col =
     (if col \<in> set (columns df) then Inr (map (get_cell df col) (rows df)) else Inl KeyError)"

text \<open>Sequencing of statements that may raise.\<close>

definition bind_err :: "error + 'a \<Rightarrow> ('a \<Rightarrow> error + 'b) \<Rightarrow> error + 'b" where
  "bind_err m k = (case m of Inl e \<Rightarrow> Inl e | Inr x \<Rightarrow> k x)"

section \<open>Sidebar filters\<close>

text \<open>
  \<^verbatim>\<open>Series.isin(values)\<close>: membership of the cell in the given values (a NaN among the
  values matches a NaN cell).
\<close>

definition isin :: "cell list \<Rightarrow> cell \<Rightarrow> bool" where
  "isin vals c = (c \<in> set vals)"

text \<open>\<^verbatim>\<open>df[mask]\<close>: the rows of the frame where the mask holds, in order.\<close>

definition select_rows :: "(cell list \<Rightarrow> bool) \<Rightarrow> table \<Rightarrow> table" where
  "select_rows p df = df\<lparr>rows := filter p (rows df)\<rparr>"

text \<open>
  The filter helper \<^verbatim>\<open>_f(df, col="state_name")\<close>. The global \<^verbatim>\<open>selected_states\<close> it
  reads is its first argument here: the list of \<^verbatim>\<open>str\<close> the multiselect widget returns,
  a sublist of its options \<^verbatim>\<open>all_states\<close>.
  \<^verbatim>\<open>return df[df[col].isin(selected_states)] if col in df.columns else df\<close>
\<close>

definition filter_f :: "string list \<Rightarrow> table \<Rightarrow> string \<Rightarrow> table" where
  "filter_f selected_states df col =
     (if col \<in> set (columns df)
      then select_rows (\<lambda>r. isin (map Str selected_states) (get_cell df col r)) df
      else df)"

subsection \<open>Valid values of the two dimensions\<close>

text \<open>
  \<^verbatim>\<open>Series.astype(str)\<close> applies \<^verbatim>\<open>str\<close> to every cell: a string is itself, an integer
  is its decimal numeral, NaN is \<^verbatim>\<open>'nan'\<close>. The text of a float is Python's shortest
  round-trip numeral, which is not computed here: it is the parameter \<open>float_repr\<close>.
\<close>

definition digit_char :: "nat \<Rightarrow> char" where
  "digit_char d = ''0123456789'' ! d"

fun str_nat :: "nat \<Rightarrow> string" where
  "str_nat n = (if n < 10 then [digit_char n] else str_nat (n div 10) @ [digit_char (n mod 10)])"

declare str_nat.simps [simp del]

definition str_int :: "int \<Rightarrow> string" where
  "str_int i = (if i < 0 then CHR ''-'' # str_nat (nat (- i)) else str_nat (nat i))"

fun astype_str :: "(rat \<Rightarrow> string) \<Rightarrow> cell \<Rightarrow> string" where
  "astype_str float_repr (Str s) = s"
| "astype_str float_repr (I64 i) = str_int i"
| "astype_str float_repr (F64 x) = float_repr x"
| "astype_str float_repr NaN = ''nan''"

definition dropna :: "cell list \<Rightarrow> cell list" where
  "dropna cs = filter (\<lambda>c. c \<noteq> NaN) cs"

text \<open>\<^verbatim>\<open>unique()\<close>: the distinct values in order of first appearance.\<close>

fun unique_acc :: "'a list \<Rightarrow> 'a list \<Rightarrow> 'a list" where
  "unique_acc seen [] = rev seen"
| "unique_acc seen (x # xs) =
     (if x \<in> set seen then unique_acc seen xs else unique_acc (x # seen) xs)"

definition unique :: "'a list \<Rightarrow> 'a list" where
  "unique xs = unique_acc [] xs"

text \<open>\<^verbatim>\<open>set(df['state_name'].dropna().astype(str).unique())\<close>\<close>

definition state_names :: "(rat \<Rightarrow> string) \<Rightarrow> table \<Rightarrow> error + string set" where
  "state_names float_repr df =
     bind_err (getitem df ''state_name'')
       (\<lambda>s. Inr (set (unique (map (astype_str float_repr) (dropna s)))))"

text \<open>
  \<^verbatim>\<open>all_states = sorted(set(df1...) | set(df3...) | set(df4...) | set(df5...))\<close>.
  All elements are of type \<^verbatim>\<open>str\<close>, which Python orders by code point: the
  lexicographic order of the strings (in UTF-8, the order of the bytes).
\<close>

definition all_states ::
    "(rat \<Rightarrow> string) \<Rightarrow> table \<Rightarrow> table \<Rightarrow> table \<Rightarrow> table \<Rightarrow> error + string list" where
  "all_states float_repr df1 df3 df4 df5 =
     bind_err (state_names float_repr df1) (\<lambda>s1.
     bind_err (state_names float_repr df3) (\<lambda>s3.
     bind_err (state_names float_repr df4) (\<lambda>s4.
     bind_err (state_names float_repr df5) (\<lambda>s5.
       Inr (sorted_list_of_set (s1 \<union> s3 \<union> s4 \<union> s5))))))"

text \<open>
  Python's \<^verbatim>\<open><\<close> on two cells: strings by code point, numbers by value, every
  comparison with NaN false, and \<^verbatim>\<open>TypeError\<close> between a string and a float or integer.
\<close>

fun py_lt :: "cell \<Rightarrow> cell \<Rightarrow> error + bool" where
  "py_lt (Str a) (Str b) = Inr (a < b)"
| "py_lt (Str a) _ = Inl TypeError"
| "py_lt _ (Str b) = Inl TypeError"
| "py_lt NaN _ = Inr False"
| "py_lt _ NaN = Inr False"
| "py_lt (I64 a) (I64 b) = Inr (a < b)"
| "py_lt (I64 a) (F64 b) = Inr (of_int a < b)"
| "py_lt (F64 a) (I64 b) = Inr (a < of_int b)"
| "py_lt (F64 a) (F64 b) = Inr (a < b)"

text \<open>
  \<^verbatim>\<open>sorted(xs)\<close>, as a stable insertion sort on \<^verbatim>\<open><\<close>: each element goes before the
  first element it is less than. CPython's merge sort returns the same list whenever
  \<^verbatim>\<open><\<close> is a total order on the elements, and raises as this does when a string meets
  a number or NaN. For numbers with a NaN among them \<^verbatim>\<open><\<close> is no order, CPython's
  result depends on its run detection, and nothing below is stated about that case.
\<close>

fun py_insort :: "cell \<Rightarrow> cell list \<Rightarrow> error + cell list" where
  "py_insort x [] = Inr [x]"
| "py_insort x (y # ys) =
     bind_err (py_lt x y) (\<lambda>b.
       if b then Inr (x # y # ys)
       else bind_err (py_insort x ys) (\<lambda>zs. Inr (y # zs)))"

fun py_sorted_acc :: "cell list \<Rightarrow> cell list \<Rightarrow> error + cell list" where
  "py_sorted_acc acc [] = Inr acc"
| "py_sorted_acc acc (x # xs) = bind_err (py_insort x acc) (\<lambda>acc'. py_sorted_acc acc' xs)"

definition py_sorted :: "cell list \<Rightarrow> error + cell list" where
  "py_sorted xs = py_sorted_acc [] xs"

text \<open>\<^verbatim>\<open>df.name\<close>: the column as an attribute, \<^verbatim>\<open>AttributeError\<close> when there is none.\<close>

definition getattr :: "table \<Rightarrow> string \<Rightarrow> error + cell list" where
  "getattr df col =
     (if col \<in> set (columns df) then Inr (map (get_cell df col) (rows df))
      else Inl AttributeError)"

text \<open>\<^verbatim>\<open>all_categories = sorted(df_cat.category_name.unique())\<close>\<close>

definition all_categories :: "table \<Rightarrow> error + cell list" where
  "all_categories df_cat =
     bind_err (getattr df_cat ''category_name'') (\<lambda>s. py_sorted (unique s))"

text \<open>\<^verbatim>\<open>df_cat_f = df_cat[df_cat.category_name.isin(selected_cats)]\<close>\<close>

definition df_cat_f :: "cell list \<Rightarrow> table \<Rightarrow> error + table" where
  "df_cat_f selected_cats df_cat =
     bind_err (getattr df_cat ''category_name'') (\<lambda>s.
       Inr (select_rows (\<lambda>r. isin selected_cats (get_cell df_cat ''category_name'' r)) df_cat))"

fun is_str :: "cell \<Rightarrow> bool" where
  "is_str (Str s) = True"
| "is_str c = False"

section \<open>Derived views\<close>

text \<open>A list of results that may have raised: the first exception, or all the values.\<close>

fun sequence_err :: "(error + 'a) list \<Rightarrow> error + 'a list" where
  "sequence_err [] = Inr []"
| "sequence_err (m # ms) = bind_err m (\<lambda>x. bind_err (sequence_err ms) (\<lambda>xs. Inr (x # xs)))"

subsection \<open>Usage tiers (sunburst)\<close>

text \<open>
  \<^verbatim>\<open>pd.cut(x, bins, labels)\<close> with its defaults \<^verbatim>\<open>right=True, include_lowest=False\<close>.
  pandas finds the bucket of a value with \<^verbatim>\<open>bins.searchsorted(x, side="left")\<close>: the
  position of the first edge that is not below the value. Position 0 (the value is at or
  below the first edge) and position \<^verbatim>\<open>len(bins)\<close> (above the last edge) give NaN.
\<close>

definition searchsorted_left :: "rat list \<Rightarrow> rat \<Rightarrow> nat" where
  "searchsorted_left bins x = length (takeWhile (\<lambda>b. b < x) bins)"

definition cut_value :: "rat list \<Rightarrow> string list \<Rightarrow> rat \<Rightarrow> cell" where
  "cut_value bins labels x =
     (let ids = searchsorted_left bins x
      in if ids = length bins \<or> ids = 0 then NaN else Str (labels ! (ids - 1)))"

fun cut_cell :: "rat list \<Rightarrow> string list \<Rightarrow> cell \<Rightarrow> error + cell" where
  "cut_cell bins labels (Str s) = Inl TypeError"
| "cut_cell bins labels NaN = Inr NaN"
| "cut_cell bins labels (I64 i) = Inr (cut_value bins labels (of_int i))"
| "cut_cell bins labels (F64 x) = Inr (cut_value bins labels x)"

text \<open>
  The checks of \<^verbatim>\<open>pd.cut\<close>, in its order: the edges increase (\<^verbatim>\<open>ValueError\<close>), and are
  unique unless there are two of them (\<^verbatim>\<open>ValueError\<close>); the values are searched
  (\<^verbatim>\<open>TypeError\<close> on a string); the labels are unique and one fewer than the edges
  (\<^verbatim>\<open>ValueError\<close>).
\<close>

definition pd_cut :: "cell list \<Rightarrow> rat list \<Rightarrow> string list \<Rightarrow> error + cell list" where
  "pd_cut xs bins labels =
     (if \<not> sorted bins then Inl ValueError
      else if \<not> distinct bins \<and> length bins \<noteq> 2 then Inl ValueError
      else bind_err (sequence_err (map (cut_cell bins labels) xs)) (\<lambda>cats.
        if \<not> distinct labels then Inl ValueError
        else if length labels \<noteq> length bins - 1 then Inl ValueError
        else Inr cats))"

text \<open>
  \<^verbatim>\<open>df[col] = values\<close>: the column is replaced when the frame has it and appended
  otherwise. The frame is returned, the caller decides which object it becomes.
\<close>

definition pad :: "nat \<Rightarrow> cell list \<Rightarrow> cell list" where
  "pad n r = take n r @ replicate (n - length r) NaN"

definition setitem :: "table \<Rightarrow> string \<Rightarrow> cell list \<Rightarrow> table" where
  "setitem df col vals =
     (let n = length (columns df) in
      if col \<in> set (columns df)
      then df\<lparr>rows := map (\<lambda>(r, v). (pad n r)[index_of col (columns df) := v]) (zip (rows df) vals)\<rparr>
      else \<lparr>columns = columns df @ [col],
            rows = map (\<lambda>(r, v). pad n r @ [v]) (zip (rows df) vals)\<rparr>)"

text \<open>
  \<^verbatim>\<open>df2_sb = df2.copy()\<close>
  \<^verbatim>\<open>df2_sb["usage_tier"] = pd.cut(df2_sb["avg_percentage_usage"], bins=[0, .1, .2, .3],\<close>
  \<^verbatim>\<open>                              labels=["Low", "Medium", "High"]).astype(str)\<close>
  \<open>usage_tier\<close> is the right-hand side of the assignment, \<open>df2_sb\<close> the value of the
  variable after the two statements.
\<close>

definition usage_tier :: "(rat \<Rightarrow> string) \<Rightarrow> table \<Rightarrow> error + cell list" where
  "usage_tier float_repr df =
     bind_err (getitem df ''avg_percentage_usage'') (\<lambda>usage.
     bind_err (pd_cut usage [0, 1/10, 2/10, 3/10] [''Low'', ''Medium'', ''High'']) (\<lambda>tiers.
       Inr (map (\<lambda>c. Str (astype_str float_repr c)) tiers)))"

definition df2_sb :: "(rat \<Rightarrow> string) \<Rightarrow> table \<Rightarrow> error + table" where
  "df2_sb float_repr df2 =
     bind_err (usage_tier float_repr df2) (\<lambda>tiers. Inr (setitem df2 ''usage_tier'' tiers))"

subsection \<open>Pivoted views\<close>

text \<open>
  A pivoted frame: the labels of its index, the labels of its columns, and the cells row by
  row.
\<close>

record crosstab =
  row_labels :: "cell list"
  col_labels :: "cell list"
  cells :: "cell list list"

text \<open>
  The order pandas sorts group keys and labels in (\<^verbatim>\<open>factorize(sort=True)\<close>): numbers by
  value, then strings by code point, then missing values.
\<close>

fun cell_key :: "cell \<Rightarrow> nat \<times> rat \<times> string" where
  "cell_key (I64 i) = (0, of_int i, [])"
| "cell_key (F64 x) = (0, x, [])"
| "cell_key (Str s) = (1, 0, s)"
| "cell_key NaN = (2, 0, [])"

text \<open>The labels of one axis: the distinct keys, sorted.\<close>

definition sort_labels :: "cell list \<Rightarrow> cell list" where
  "sort_labels ks = sort_key cell_key (unique ks)"

text \<open>
  Python's \<^verbatim>\<open>+\<close> on two cells, and the aggregation \<^verbatim>\<open>sum\<close> of a group: missing values
  are skipped, a group with no value left sums to 0.0.
\<close>

fun add_cell :: "cell \<Rightarrow> cell \<Rightarrow> error + cell" where
  "add_cell (I64 a) (I64 b) = Inr (I64 (a + b))"
| "add_cell (I64 a) (F64 b) = Inr (F64 (of_int a + b))"
| "add_cell (F64 a) (I64 b) = Inr (F64 (a + of_int b))"
| "add_cell (F64 a) (F64 b) = Inr (F64 (a + b))"
| "add_cell (Str a) (Str b) = Inr (Str (a @ b))"
| "add_cell (Str a) _ = Inl TypeError"
| "add_cell _ (Str b) = Inl TypeError"
| "add_cell NaN _ = Inr NaN"
| "add_cell _ NaN = Inr NaN"

fun sum_from :: "cell \<Rightarrow> cell list \<Rightarrow> error + cell" where
  "sum_from acc [] = Inr acc"
| "sum_from acc (v # vs) = bind_err (add_cell acc v) (\<lambda>acc'. sum_from acc' vs)"

definition agg_sum :: "cell list \<Rightarrow> error + cell" where
  "agg_sum vs = (case dropna vs of [] \<Rightarrow> Inr (F64 0) | v # rest \<Rightarrow> sum_from v rest)"

text \<open>
  The (index key, column key, value) triple of every row, and \<^verbatim>\<open>groupby\<close>'s default
  \<^verbatim>\<open>dropna=True\<close>, which leaves out the rows with a missing key.
\<close>

definition keyed :: "table \<Rightarrow> string \<Rightarrow> string \<Rightarrow> string \<Rightarrow> (cell \<times> cell \<times> cell) list" where
  "keyed df index_col columns_col values_col =
     map (\<lambda>r. (get_cell df index_col r, get_cell df columns_col r, get_cell df values_col r))
       (rows df)"

definition drop_na_keys :: "(cell \<times> cell \<times> cell) list \<Rightarrow> (cell \<times> cell \<times> cell) list" where
  "drop_na_keys ts = filter (\<lambda>(i, j, v). i \<noteq> NaN \<and> j \<noteq> NaN) ts"

text \<open>The values of the rows that fall in the cell \<open>(i, j)\<close>, in row order.\<close>

definition cell_values :: "(cell \<times> cell \<times> cell) list \<Rightarrow> cell \<Rightarrow> cell \<Rightarrow> cell list" where
  "cell_values ts i j = map (\<lambda>(i', j', v). v) (filter (\<lambda>(i', j', v). i' = i \<and> j' = j) ts)"

text \<open>
  \<^verbatim>\<open>unstack\<close>: one row per index label and one column per column label, both sorted; a
  cell no row falls in is left open (\<open>None\<close>), the values of the other cells are combined
  by \<open>agg\<close>.
\<close>

definition unstack_cell ::
    "(cell list \<Rightarrow> error + cell) \<Rightarrow> (cell \<times> cell \<times> cell) list \<Rightarrow> cell \<Rightarrow> cell \<Rightarrow> error + cell option" where
  "unstack_cell agg ts i j =
     (case cell_values ts i j of [] \<Rightarrow> Inr None
      | v # vs \<Rightarrow> bind_err (agg (v # vs)) (\<lambda>s. Inr (Some s)))"

definition unstack ::
    "(cell list \<Rightarrow> error + cell) \<Rightarrow> (cell \<times> cell \<times> cell) list
       \<Rightarrow> error + cell list \<times> cell list \<times> cell option list list" where
  "unstack agg ts =
     (let rl = sort_labels (map (\<lambda>(i, j, v). i) ts);
          cl = sort_labels (map (\<lambda>(i, j, v). j) ts)
      in bind_err (sequence_err (map (\<lambda>i. sequence_err (map (unstack_cell agg ts i) cl)) rl))
           (\<lambda>m. Inr (rl, cl, m)))"

text \<open>
  Filling the open cells. With no \<^verbatim>\<open>fill_value\<close> they become NaN, and pandas then holds
  the integers of the frame as floats. With \<^verbatim>\<open>fill_value=0\<close> they become 0 of the type
  of the values.
\<close>

fun upcast :: "cell \<Rightarrow> cell" where
  "upcast (I64 i) = F64 (of_int i)"
| "upcast c = c"

definition fill_nan :: "cell option list list \<Rightarrow> cell list list" where
  "fill_nan m =
     (if list_ex (list_ex (\<lambda>x. x = None)) m
      then map (map (\<lambda>x. case x of None \<Rightarrow> NaN | Some c \<Rightarrow> upcast c)) m
      else map (map (\<lambda>x. case x of None \<Rightarrow> NaN | Some c \<Rightarrow> c)) m)"

fun is_f64 :: "cell \<Rightarrow> bool" where
  "is_f64 (F64 x) = True"
| "is_f64 c = False"

definition fill_zero :: "cell option list list \<Rightarrow> cell list list" where
  "fill_zero m =
     (let zero = (if list_ex (list_ex (\<lambda>x. case x of None \<Rightarrow> False | Some c \<Rightarrow> is_f64 c)) m
                  then F64 0 else I64 0)
      in map (map (\<lambda>x. case x of None \<Rightarrow> zero | Some c \<Rightarrow> c)) m)"

text \<open>The check that a frame has the columns a statement names (\<^verbatim>\<open>KeyError\<close>).\<close>

definition has_columns :: "table \<Rightarrow> string list \<Rightarrow> error + unit" where
  "has_columns df cols = (if set cols \<subseteq> set (columns df) then Inr () else Inl KeyError)"

text \<open>
  \<^verbatim>\<open>pivot = df1_f.pivot_table(index="state_name", columns="quarter",\<close>
  \<^verbatim>\<open>                          values="total_transactions", aggfunc="sum")\<close>
\<close>

definition pivot :: "table \<Rightarrow> error + crosstab" where
  "pivot df1_f =
     bind_err (has_columns df1_f [''state_name'', ''quarter'', ''total_transactions'']) (\<lambda>_.
     bind_err (unstack agg_sum
                (drop_na_keys (keyed df1_f ''state_name'' ''quarter'' ''total_transactions'')))
       (\<lambda>(rl, cl, m). Inr \<lparr>row_labels = rl, col_labels = cl, cells = fill_nan m\<rparr>))"

text \<open>
  \<^verbatim>\<open>df_stacked = df1_f.groupby(["quarter", "state_name"])["total_amount"]\<close>
  \<^verbatim>\<open>                  .sum().unstack(fill_value=0)\<close>
\<close>

definition df_stacked :: "table \<Rightarrow> error + crosstab" where
  "df_stacked df1_f =
     bind_err (has_columns df1_f [''quarter'', ''state_name'', ''total_amount'']) (\<lambda>_.
     bind_err (unstack agg_sum
                (drop_na_keys (keyed df1_f ''quarter'' ''state_name'' ''total_amount'')))
       (\<lambda>(rl, cl, m). Inr \<lparr>row_labels = rl, col_labels = cl, cells = fill_zero m\<rparr>))"

text \<open>
  \<^verbatim>\<open>DataFrame.pivot\<close> aggregates nothing: two rows in one cell are
  \<^verbatim>\<open>ValueError: Index contains duplicate entries, cannot reshape\<close>.
\<close>

fun only_value :: "cell list \<Rightarrow> error + cell" where
  "only_value [v] = Inr v"
| "only_value vs = Inl ValueError"

text \<open>
  \<^verbatim>\<open>df.sort_values(by)\<close> with a list of columns: a stable sort on the keys of the columns
  in turn, missing values last.
\<close>

definition sort_values :: "table \<Rightarrow> string list \<Rightarrow> error + table" where
  "sort_values df by =
     bind_err (has_columns df by) (\<lambda>_.
       Inr (df\<lparr>rows := sort_key (\<lambda>r. map (\<lambda>c. cell_key (get_cell df c r)) by) (rows df)\<rparr>))"

text \<open>
  \<^verbatim>\<open>df_area = df3_f.copy()\<close>
  \<^verbatim>\<open>df_area["time"] = df_area["year"].astype(str) + "-Q" + df_area["quarter"].astype(str)\<close>
  \<^verbatim>\<open>df_area = df_area.sort_values(["state_name", "year", "quarter"])\<close>
  \<^verbatim>\<open>pivot_val = df_area.pivot(index="time", columns="state_name", values="total_value")\<close>
  \<open>time_column\<close> is the right-hand side of the assignment, \<open>df_area\<close> the value of the
  variable after the three statements, \<open>pivot_area\<close> the call of \<^verbatim>\<open>pivot\<close>. In
  \<open>pivot_val\<close> the keys are not missing: \<open>time\<close> is a string, and \<open>state_name\<close> passed the
  filter.
\<close>

definition time_key :: "(rat \<Rightarrow> string) \<Rightarrow> cell \<Rightarrow> cell \<Rightarrow> string" where
  "time_key float_repr y q = astype_str float_repr y @ ''-Q'' @ astype_str float_repr q"

definition time_column :: "(rat \<Rightarrow> string) \<Rightarrow> table \<Rightarrow> error + cell list" where
  "time_column float_repr df =
     bind_err (getitem df ''year'') (\<lambda>ys.
     bind_err (getitem df ''quarter'') (\<lambda>qs.
       Inr (map (\<lambda>(y, q). Str (time_key float_repr y q)) (zip ys qs))))"

definition df_area :: "(rat \<Rightarrow> string) \<Rightarrow> table \<Rightarrow> error + table" where
  "df_area float_repr df3_f =
     bind_err (time_column float_repr df3_f) (\<lambda>time.
       sort_values (setitem df3_f ''time'' time) [''state_name'', ''year'', ''quarter''])"

definition pivot_area :: "table \<Rightarrow> error + crosstab" where
  "pivot_area area =
     bind_err (has_columns area [''time'', ''state_name'', ''total_value'']) (\<lambda>_.
     bind_err (unstack only_value (keyed area ''time'' ''state_name'' ''total_value''))
       (\<lambda>(rl, cl, m). Inr \<lparr>row_labels = rl, col_labels = cl, cells = fill_nan m\<rparr>))"

definition pivot_val :: "(rat \<Rightarrow> string) \<Rightarrow> table \<Rightarrow> error + crosstab" where
  "pivot_val float_repr df3_f = bind_err (df_area float_repr df3_f) pivot_area"


text \<open>
  \<^verbatim>\<open>df.sort_values(col, ascending=False)\<close> with one column, as the bar charts of the
  device and growth tabs call it: rows with a missing key last, the others by descending
  key. pandas sorts the one key with numpy's quicksort, which fixes no order among equal
  keys; here they keep their order. Strings and numbers in one column do not compare
  (\<^verbatim>\<open>TypeError\<close>).
\<close>

fun is_num :: "cell \<Rightarrow> bool" where
  "is_num (I64 i) = True"
| "is_num (F64 x) = True"
| "is_num c = False"

definition sort_values_desc :: "table \<Rightarrow> string \<Rightarrow> error + table" where
  "sort_values_desc df col =
     bind_err (has_columns df [col]) (\<lambda>_.
       let keys = map (get_cell df col) (rows df);
           present = filter (\<lambda>r. get_cell df col r \<noteq> NaN) (rows df);
           missing = filter (\<lambda>r. get_cell df col r = NaN) (rows df)
       in if list_ex is_str keys \<and> list_ex is_num keys then Inl TypeError
          else Inr (df\<lparr>rows := rev (sort_key (\<lambda>r. cell_key (get_cell df col r)) (rev present))
                                @ missing\<rparr>))"


section \<open>The script as a sequence of statements on a store\<close>

text \<open>
  Data frames are objects: two variables can name one frame, and \<^verbatim>\<open>df[col] = ...\<close> changes
  the frame in place for both. The store holds the frames by address, the variables hold
  addresses, and the pivoted frames (never written to after they are built) are held by
  value. Addresses 0 to 5 are the six frames read from the CSV files.
\<close>

record state =
  heap :: "table list"
  vars :: "string \<Rightarrow> nat option"
  views :: "string \<Rightarrow> crosstab option"

text \<open>The frame a variable names.\<close>

definition frame_of :: "state \<Rightarrow> string \<Rightarrow> error + table" where
  "frame_of s x =
     (case vars s x of None \<Rightarrow> Inl NameError
      | Some a \<Rightarrow> if a < length (heap s) then Inr (heap s ! a) else Inl NameError)"

text \<open>\<^verbatim>\<open>x = <new frame>\<close>: the frame gets a fresh address, and \<open>x\<close> names it.\<close>

definition bind_new :: "string \<Rightarrow> table \<Rightarrow> state \<Rightarrow> state" where
  "bind_new x df s = s\<lparr>heap := heap s @ [df], vars := (vars s)(x := Some (length (heap s)))\<rparr>"

text \<open>An expression that is evaluated for its value or its exception; the store stays.\<close>

definition stmt_eval :: "(state \<Rightarrow> error + 'a) \<Rightarrow> state \<Rightarrow> error + state" where
  "stmt_eval e s = bind_err (e s) (\<lambda>_. Inr s)"

text \<open>
  \<^verbatim>\<open>x = _f(y)\<close>. With the column, \<^verbatim>\<open>df[mask]\<close> builds a new frame. Without it \<^verbatim>\<open>_f\<close>
  returns its argument: \<open>x\<close> then names the very frame \<open>y\<close> names.
\<close>

definition stmt_f :: "string list \<Rightarrow> string \<Rightarrow> string \<Rightarrow> state \<Rightarrow> error + state" where
  "stmt_f selected_states x y s =
     bind_err (frame_of s y) (\<lambda>df.
       if ''state_name'' \<in> set (columns df)
       then Inr (bind_new x (filter_f selected_states df ''state_name'') s)
       else Inr (s\<lparr>vars := (vars s)(x := vars s y)\<rparr>))"

text \<open>
  \<^verbatim>\<open>x = e(y)\<close> for an operation that returns a new frame: \<^verbatim>\<open>y.copy()\<close> (\<open>e = Inr\<close>),
  \<^verbatim>\<open>y.sort_values(...)\<close>, \<^verbatim>\<open>y[mask]\<close>. \<open>stmt_temp\<close> is the same with the result passed to
  a chart call and bound to no variable.
\<close>

definition stmt_new :: "string \<Rightarrow> (table \<Rightarrow> error + table) \<Rightarrow> string \<Rightarrow> state \<Rightarrow> error + state" where
  "stmt_new x e y s = bind_err (frame_of s y) (\<lambda>df. bind_err (e df) (\<lambda>r. Inr (bind_new x r s)))"

definition stmt_temp :: "(table \<Rightarrow> error + table) \<Rightarrow> string \<Rightarrow> state \<Rightarrow> error + state" where
  "stmt_temp e y s =
     bind_err (frame_of s y) (\<lambda>df. bind_err (e df) (\<lambda>r. Inr (s\<lparr>heap := heap s @ [r]\<rparr>)))"

text \<open>\<^verbatim>\<open>x[col] = e(x)\<close>: the frame \<open>x\<close> names is changed in place.\<close>

definition stmt_setitem ::
    "string \<Rightarrow> string \<Rightarrow> (table \<Rightarrow> error + cell list) \<Rightarrow> state \<Rightarrow> error + state" where
  "stmt_setitem x col e s =
     bind_err (frame_of s x) (\<lambda>df. bind_err (e df) (\<lambda>vals.
       case vars s x of None \<Rightarrow> Inl NameError
       | Some a \<Rightarrow> Inr (s\<lparr>heap := (heap s)[a := setitem df col vals]\<rparr>)))"

text \<open>\<^verbatim>\<open>x = e(y)\<close> for a pivoted frame.\<close>

definition stmt_view ::
    "string \<Rightarrow> (table \<Rightarrow> error + crosstab) \<Rightarrow> string \<Rightarrow> state \<Rightarrow> error + state" where
  "stmt_view x e y s =
     bind_err (frame_of s y) (\<lambda>df. bind_err (e df) (\<lambda>p.
       Inr (s\<lparr>views := (views s)(x := Some p)\<rparr>)))"

text \<open>
  The statements of the script that read or build frames, in source order (lines 46 to
  243). The two selections are what the multiselect widgets return. The chart calls read
  the frames they are given and are left out.
\<close>

definition script ::
    "(rat \<Rightarrow> string) \<Rightarrow> string list \<Rightarrow> cell list \<Rightarrow> (state \<Rightarrow> error + state) list" where
  "script float_repr selected_states selected_cats =
     [stmt_eval (\<lambda>s.
        bind_err (frame_of s ''df1'') (\<lambda>df1. bind_err (frame_of s ''df3'') (\<lambda>df3.
        bind_err (frame_of s ''df4'') (\<lambda>df4. bind_err (frame_of s ''df5'') (\<lambda>df5.
          all_states float_repr df1 df3 df4 df5))))),
      stmt_eval (\<lambda>s. bind_err (frame_of s ''df_cat'') all_categories),
      stmt_f selected_states ''df1_f'' ''df1'',
      stmt_f selected_states ''df3_f'' ''df3'',
      stmt_f selected_states ''df4_f'' ''df4'',
      stmt_f selected_states ''df5_f'' ''df5'',
      stmt_new ''df_cat_f'' (df_cat_f selected_cats) ''df_cat'',
      stmt_view ''pivot'' pivot ''df1_f'',
      stmt_view ''df_stacked'' df_stacked ''df1_f'',
      stmt_temp (\<lambda>df. sort_values_desc df ''total_registered_users'') ''df2'',
      stmt_new ''df2_sb'' Inr ''df2'',
      stmt_setitem ''df2_sb'' ''usage_tier'' (usage_tier float_repr),
      stmt_new ''df_area'' Inr ''df3_f'',
      stmt_setitem ''df_area'' ''time'' (time_column float_repr),
      stmt_new ''df_area'' (\<lambda>df. sort_values df [''state_name'', ''year'', ''quarter'']) ''df_area'',
      stmt_view ''pivot_val'' pivot_area ''df_area'',
      stmt_temp (\<lambda>df. sort_values_desc df ''growth_percent'') ''df4_f'']"

text \<open>
  Running statements from a store: the store when the run ends, and the exception that
  ended it, if any.
\<close>

fun exec :: "(state \<Rightarrow> error + state) list \<Rightarrow> state \<Rightarrow> state \<times> error option" where
  "exec [] s = (s, None)"
| "exec (stmt # stmts) s = (case stmt s of Inl e \<Rightarrow> (s, Some e) | Inr s' \<Rightarrow> exec stmts s')"

text \<open>The store after the six \<^verbatim>\<open>read_csv\<close> calls.\<close>

definition source_names :: "string list" where
  "source_names = [''df1'', ''df2'', ''df3'', ''df4'', ''df5'', ''df_cat'']"

definition loaded :: "table \<Rightarrow> table \<Rightarrow> table \<Rightarrow> table \<Rightarrow> table \<Rightarrow> table \<Rightarrow> state" where
  "loaded df1 df2 df3 df4 df5 df_cat =
     \<lparr>heap = [df1, df2, df3, df4, df5, df_cat],
      vars = map_of (zip source_names [0, 1, 2, 3, 4, 5]),
      views = (\<lambda>x. None)\<rparr>"

text \<open>
  The invariant of a run: the first addresses hold the source frames, the source variables
  name them, and the two variables the script assigns columns through name later frames.
\<close>

definition intact :: "table list \<Rightarrow> state \<Rightarrow> bool" where
  "intact src s \<longleftrightarrow>
     length src = length source_names
     \<and> take (length src) (heap s) = src
     \<and> length src \<le> length (heap s)
     \<and> map (vars s) source_names = map Some [0..<length src]
     \<and> (\<forall>a. vars s ''df2_sb'' = Some a \<longrightarrow> length src \<le> a)
     \<and> (\<forall>a. vars s ''df_area'' = Some a \<longrightarrow> length src \<le> a)"

subsection \<open>Example frames\<close>

text \<open>Small frames with the columns of the source tables, used to run the definitions.\<close>

definition ex_df1 :: table where
  "ex_df1 = \<lparr>columns = [''state_name'', ''quarter'', ''total_amount''],
             rows = [[Str ''Goa'', I64 1, I64 3], [NaN, I64 1, I64 5],
                     [Str ''Assam'', I64 2, I64 2]]\<rparr>"

definition ex_text :: table where
  "ex_text = \<lparr>columns = [''state_name'', ''quarter'', ''total_amount''],
             rows = [[Str ''Goa'', I64 1, I64 3], [Str ''Assam'', I64 2, I64 2]]\<rparr>"

definition ex_cat :: table where
  "ex_cat = \<lparr>columns = [''category_name'', ''year'', ''amount''],
             rows = [[Str ''Recharge'', I64 2023, I64 10],
                     [Str ''Financial'', I64 2023, I64 5]]\<rparr>"

definition ex_df2 :: table where
  "ex_df2 = \<lparr>columns = [''brand'', ''total_registered_users'', ''avg_percentage_usage''],
             rows = [[Str ''Xiaomi'', I64 100, F64 (1/10)], [Str ''Vivo'', I64 70, F64 (3/20)],
                     [Str ''Apple'', I64 20, F64 (3/10)], [Str ''Lava'', I64 5, F64 0],
                     [Str ''Others'', I64 50, F64 (7/20)]]\<rparr>"

definition ex_pivot :: table where
  "ex_pivot = \<lparr>columns = [''state_name'', ''year'', ''quarter'', ''total_transactions'', ''total_amount'', ''total_value''],
     rows = [[Str ''A'', I64 2023, I64 1, I64 3, I64 3, I64 3],
             [Str ''A'', I64 2023, I64 1, I64 5, I64 5, I64 5],
             [Str ''B'', I64 2023, I64 2, I64 2, I64 2, I64 2]]\<rparr>"

definition ex_df3 :: table where
  "ex_df3 = \<lparr>columns = [''state_name'', ''year'', ''quarter'', ''total_value''],
     rows = [[Str ''Goa'', I64 2024, I64 1, F64 (5/2)],
             [Str ''Goa'', I64 2023, I64 4, F64 (3/2)],
             [Str ''Assam'', I64 2023, I64 4, F64 1]]\<rparr>"

definition ex_q10 :: table where
  "ex_q10 = \<lparr>columns = [''state_name'', ''year'', ''quarter'', ''total_value''],
     rows = [[Str ''Goa'', I64 2023, I64 9, F64 1],
             [Str ''Goa'', I64 2023, I64 10, F64 2]]\<rparr>"




definition ex_pivot_val :: crosstab where
  "ex_pivot_val = \<lparr>row_labels = [Str ''2023-Q4'', Str ''2024-Q1''],
        col_labels = [Str ''Assam'', Str ''Goa''],
        cells = [[F64 1, F64 (3 / 2)], [NaN, F64 (5 / 2)]]\<rparr>"

definition ex_df4 :: table where
  "ex_df4 = \<lparr>columns = [''state_name'', ''previous_tx'', ''current_tx'', ''growth'', ''growth_percent''],
     rows = [[Str ''Goa'', I64 100, I64 150, I64 50, F64 50],
             [Str ''Assam'', I64 200, I64 220, I64 20, F64 10]]\<rparr>"

definition ex_run :: "state \<times> error option" where
  "ex_run = exec (script (\<lambda>x. ''0.0'') [''Goa'', ''A''] [Str ''Recharge''])
              (loaded ex_pivot ex_df2 ex_df3 ex_df4 ex_text ex_cat)"

section \<open>Properties\<close>

subsection \<open>Auxiliary facts\<close>

lemma bind_err_Inr_iff: "bind_err m k = Inr y \<longleftrightarrow> (\<exists>x. m = Inr x \<and> k x = Inr y)"
  by (cases m) (auto simp: bind_err_def)

lemma bind_err_assoc: "bind_err (bind_err m f) g = bind_err m (\<lambda>x. bind_err (f x) g)"
  by (cases m) (simp_all add: bind_err_def)

lemma bind_err_Inr: "bind_err (Inr x) f = f x"
  by (simp add: bind_err_def)

lemma df_area_unfold:
  "df_area fr df =
     bind_err (getitem df ''year'') (\<lambda>ys.
     bind_err (getitem df ''quarter'') (\<lambda>qs.
       sort_values (setitem df ''time'' (map (\<lambda>(y, q). Str (time_key fr y q)) (zip ys qs)))
         [''state_name'', ''year'', ''quarter'']))"
  by (simp add: df_area_def time_column_def bind_err_assoc bind_err_Inr)

lemma pivot_val_unfold:
  "pivot_val fr df =
     bind_err (df_area fr df) (\<lambda>area.
     bind_err (has_columns area [''time'', ''state_name'', ''total_value'']) (\<lambda>_.
     bind_err (unstack only_value (keyed area ''time'' ''state_name'' ''total_value''))
       (\<lambda>(rl, cl, m). Inr \<lparr>row_labels = rl, col_labels = cl, cells = fill_nan m\<rparr>)))"
  by (simp add: pivot_val_def pivot_area_def [abs_def])

lemma set_unique_acc: "set (unique_acc seen xs) = set seen \<union> set xs"
  by (induction xs arbitrary: seen) auto

lemma set_unique: "set (unique xs) = set xs"
  by (simp add: unique_def set_unique_acc)

lemma distinct_unique_acc: "distinct seen \<Longrightarrow> distinct (unique_acc seen xs)"
  by (induction xs arbitrary: seen) auto

lemma distinct_unique: "distinct (unique xs)"
  by (simp add: unique_def distinct_unique_acc)

lemma state_names_Inr:
  "state_names fr df = Inr S \<longleftrightarrow>
     ''state_name'' \<in> set (columns df) \<and>
     S = astype_str fr ` {c \<in> get_cell df ''state_name'' ` set (rows df). c \<noteq> NaN}"
  by (auto simp: state_names_def bind_err_Inr_iff getitem_def set_unique dropna_def)

lemma all_states_Inr:
  "all_states fr df1 df3 df4 df5 = Inr sts \<longleftrightarrow>
     (\<exists>s1 s3 s4 s5. state_names fr df1 = Inr s1 \<and> state_names fr df3 = Inr s3 \<and>
        state_names fr df4 = Inr s4 \<and> state_names fr df5 = Inr s5 \<and>
        sts = sorted_list_of_set (s1 \<union> s3 \<union> s4 \<union> s5))"
  by (auto simp: all_states_def bind_err_Inr_iff)

lemma finite_state_names: "state_names fr df = Inr S \<Longrightarrow> finite S"
  by (auto simp: state_names_Inr)

lemma all_states_set:
  assumes "all_states fr df1 df3 df4 df5 = Inr sts"
  shows "\<exists>s1 s3 s4 s5. state_names fr df1 = Inr s1 \<and> state_names fr df3 = Inr s3 \<and>
        state_names fr df4 = Inr s4 \<and> state_names fr df5 = Inr s5 \<and>
        set sts = s1 \<union> s3 \<union> s4 \<union> s5 \<and> sorted sts \<and> distinct sts"
proof -
  from assms obtain s1 s3 s4 s5 where
    s: "state_names fr df1 = Inr s1" "state_names fr df3 = Inr s3"
       "state_names fr df4 = Inr s4" "state_names fr df5 = Inr s5"
    and sts: "sts = sorted_list_of_set (s1 \<union> s3 \<union> s4 \<union> s5)"
    by (auto simp: all_states_Inr)
  have "finite (s1 \<union> s3 \<union> s4 \<union> s5)"
    using s by (simp add: finite_state_names)
  then have "set sts = s1 \<union> s3 \<union> s4 \<union> s5" "sorted sts" "distinct sts"
    by (simp_all add: sts)
  with s show ?thesis by blast
qed

text \<open>
  The list of valid states is strictly ascending (sorted, without duplicates), and the same
  whatever the order of the four tables: swapping any two neighbours changes nothing.
\<close>

lemma state_names_cases:
  "state_names fr df = Inl KeyError \<or> (\<exists>S. state_names fr df = Inr S)"
  by (simp add: state_names_def getitem_def bind_err_def)

lemma all_states_order:
  "all_states fr df3 df1 df4 df5 = all_states fr df1 df3 df4 df5"
  "all_states fr df1 df4 df3 df5 = all_states fr df1 df3 df4 df5"
  "all_states fr df1 df3 df5 df4 = all_states fr df1 df3 df4 df5"
  using state_names_cases [of fr df1] state_names_cases [of fr df3]
    state_names_cases [of fr df4] state_names_cases [of fr df5]
  by (auto simp: all_states_def bind_err_def Un_ac)

lemma all_states_sorted:
  "all_states fr df1 df3 df4 df5 = Inr sts \<Longrightarrow> sorted_wrt (<) sts"
  using all_states_set [of fr df1 df3 df4 df5 sts] by (auto simp: strict_sorted_iff)

lemma is_str_iff: "is_str c \<longleftrightarrow> (\<exists>s. c = Str s)"
  by (cases c) auto








subsection \<open>Claims\<close>

text \<open>
  C3. A frame with no column named after the filter dimension passes through the filter
  helper unchanged, whatever the selection is (the empty selection included).
\<close>

theorem filter_f_no_column:
  "col \<notin> set (columns df) \<Longrightarrow> filter_f selected_states df col = df"
  by (simp add: filter_f_def)

theorem filter_f_no_column_witness:
  "''state_name'' \<notin> set (columns \<lparr>columns = [''brand'', ''total_registered_users''],
        rows = [[Str ''Xiaomi'', I64 10], [Str ''Vivo'', I64 7]]\<rparr>)
   \<and> filter_f [] \<lparr>columns = [''brand'', ''total_registered_users''],
        rows = [[Str ''Xiaomi'', I64 10], [Str ''Vivo'', I64 7]]\<rparr> ''state_name''
     = \<lparr>columns = [''brand'', ''total_registered_users''],
        rows = [[Str ''Xiaomi'', I64 10], [Str ''Vivo'', I64 7]]\<rparr>"
proof -
  have h: "''state_name'' \<notin> set (columns \<lparr>columns = [''brand'', ''total_registered_users''],
        rows = [[Str ''Xiaomi'', I64 10], [Str ''Vivo'', I64 7]]\<rparr>)"
    by simp
  show ?thesis using h filter_f_no_column [OF h, of "[]"] by simp
qed




text \<open>
  C2. The valid values of \<^verbatim>\<open>category_name\<close> are computed without dropping missing
  values: with a missing category beside a text one \<^verbatim>\<open>sorted\<close> raises \<^verbatim>\<open>TypeError\<close>, and
  when every category is missing the list holds NaN.
\<close>

theorem all_categories_missing_value:
  "all_categories \<lparr>columns = [''category_name'', ''year'', ''amount''],
       rows = [[Str ''Recharge'', I64 2023, I64 10], [NaN, I64 2023, I64 5]]\<rparr> = Inl TypeError
   \<and> all_categories \<lparr>columns = [''category_name'', ''year'', ''amount''],
       rows = [[NaN, I64 2023, I64 10], [NaN, I64 2024, I64 5]]\<rparr> = Inr [NaN]"
  by code_simp

text \<open>
  C10. On a frame that has the filter column, the filter helper keeps the columns and
  returns exactly the rows whose value in that column is in the selection, as a
  subsequence of the input rows; a larger selection gives a supersequence. The same holds
  for the category filter on \<^verbatim>\<open>df_cat\<close>.
\<close>

theorem filter_is_subsequence:
  assumes "col \<in> set (columns df)" and "''category_name'' \<in> set (columns df_cat)"
  shows "columns (filter_f S df col) = columns df
       \<and> rows (filter_f S df col) = filter (\<lambda>r. isin (map Str S) (get_cell df col r)) (rows df)
       \<and> subseq (rows (filter_f S df col)) (rows df)
       \<and> (set S \<subseteq> set S' \<longrightarrow> subseq (rows (filter_f S df col)) (rows (filter_f S' df col)))
       \<and> (\<exists>t. df_cat_f C df_cat = Inr t \<and> columns t = columns df_cat
            \<and> rows t = filter (\<lambda>r. isin C (get_cell df_cat ''category_name'' r)) (rows df_cat)
            \<and> subseq (rows t) (rows df_cat)
            \<and> (set C \<subseteq> set C' \<longrightarrow>
                 (\<exists>t'. df_cat_f C' df_cat = Inr t' \<and> subseq (rows t) (rows t'))))"
proof -
  have mono: "subseq (filter (\<lambda>r. isin A (g r)) xs) (filter (\<lambda>r. isin B (g r)) xs)"
    if "set A \<subseteq> set B" for g :: "cell list \<Rightarrow> cell" and xs A B
  proof -
    have "filter (\<lambda>r. isin A (g r)) xs = filter (\<lambda>r. isin A (g r)) (filter (\<lambda>r. isin B (g r)) xs)"
      using that by (auto simp: isin_def intro: filter_cong)
    then show ?thesis by (metis subseq_filter_left)
  qed
  have sub: "set (map Str S) \<subseteq> set (map Str S')" if "set S \<subseteq> set S'"
    using that by auto
  show ?thesis
    using assms mono [of C C'] mono [OF sub]
    by (simp add: filter_f_def select_rows_def df_cat_f_def getattr_def bind_err_def)
qed

theorem filter_is_subsequence_witness:
  "rows (filter_f [''Goa''] ex_df1 ''state_name'') = [[Str ''Goa'', I64 1, I64 3]]
   \<and> subseq (rows (filter_f [''Goa''] ex_df1 ''state_name'')) (rows ex_df1)
   \<and> subseq (rows (filter_f [''Goa''] ex_df1 ''state_name''))
         (rows (filter_f [''Assam'', ''Goa''] ex_df1 ''state_name''))
   \<and> (\<exists>t. df_cat_f [Str ''Recharge''] ex_cat = Inr t
          \<and> rows t = [[Str ''Recharge'', I64 2023, I64 10]])"
proof -
  have c1: "''state_name'' \<in> set (columns ex_df1)" by (simp add: ex_df1_def)
  have c2: "''category_name'' \<in> set (columns ex_cat)" by (simp add: ex_cat_def)
  have s: "set [''Goa''] \<subseteq> set [''Assam'', ''Goa'']" by simp
  have e1: "filter (\<lambda>r. isin (map Str [''Goa'']) (get_cell ex_df1 ''state_name'' r)) (rows ex_df1)
            = [[Str ''Goa'', I64 1, I64 3]]"
    by (simp add: ex_df1_def isin_def get_cell_def cell_at_def)
  have e2: "filter (\<lambda>r. isin [Str ''Recharge''] (get_cell ex_cat ''category_name'' r)) (rows ex_cat)
            = [[Str ''Recharge'', I64 2023, I64 10]]"
    by (simp add: ex_cat_def isin_def get_cell_def cell_at_def)
  note th = filter_is_subsequence [OF c1 c2, of "[''Goa'']" "[''Assam'', ''Goa'']"
      "[Str ''Recharge'']" "[Str ''Recharge'']"]
  from th e1 have 1: "rows (filter_f [''Goa''] ex_df1 ''state_name'') = [[Str ''Goa'', I64 1, I64 3]]"
    by simp
  from th have 2: "subseq (rows (filter_f [''Goa''] ex_df1 ''state_name'')) (rows ex_df1)"
    by blast
  from th s have 3: "subseq (rows (filter_f [''Goa''] ex_df1 ''state_name''))
         (rows (filter_f [''Assam'', ''Goa''] ex_df1 ''state_name''))"
    by blast
  from th e2 have 4: "\<exists>t. df_cat_f [Str ''Recharge''] ex_cat = Inr t
          \<and> rows t = [[Str ''Recharge'', I64 2023, I64 10]]"
    by auto
  from 1 2 3 4 show ?thesis by blast
qed




lemma usage_tier_example:
  "df2_sb (\<lambda>x. ''f'') ex_df2 = Inr \<lparr>columns = [''brand'', ''total_registered_users'', ''avg_percentage_usage'', ''usage_tier''],
             rows = [[Str ''Xiaomi'', I64 100, F64 (1/10), Str ''Low''], [Str ''Vivo'', I64 70, F64 (3/20), Str ''Medium''],
                     [Str ''Apple'', I64 20, F64 (3/10), Str ''High''], [Str ''Lava'', I64 5, F64 0, Str ''nan''],
                     [Str ''Others'', I64 50, F64 (7/20), Str ''nan'']]\<rparr>"
  by code_simp

subsection \<open>Pivoted views: auxiliary facts\<close>

lemma sequence_err_Inr: "sequence_err ms = Inr xs \<longleftrightarrow> ms = map Inr xs"
proof (induction ms arbitrary: xs)
  case Nil
  then show ?case by auto
next
  case (Cons m ms)
  show ?case
  proof (cases xs)
    case Nil
    then show ?thesis by (auto simp: bind_err_Inr_iff)
  next
    case (Cons y ys)
    then show ?thesis using Cons.IH [of ys] by (auto simp: bind_err_Inr_iff)
  qed
qed

lemma unstack_Inr:
  assumes "unstack agg ts = Inr (rl, cl, m)"
  shows "rl = sort_labels (map (\<lambda>(i, j, v). i) ts)"
    and "cl = sort_labels (map (\<lambda>(i, j, v). j) ts)"
    and "length m = length rl"
    and "a < length rl \<Longrightarrow> length (m ! a) = length cl"
    and "a < length rl \<Longrightarrow> b < length cl \<Longrightarrow>
           unstack_cell agg ts (rl ! a) (cl ! b) = Inr (m ! a ! b)"
proof -
  from assms have rl: "rl = sort_labels (map (\<lambda>(i, j, v). i) ts)"
    and cl: "cl = sort_labels (map (\<lambda>(i, j, v). j) ts)"
    and m: "map (\<lambda>i. sequence_err (map (unstack_cell agg ts i) cl)) rl = map Inr m"
    by (auto simp: unstack_def Let_def bind_err_Inr_iff sequence_err_Inr)
  show "rl = sort_labels (map (\<lambda>(i, j, v). i) ts)" by (rule rl)
  show "cl = sort_labels (map (\<lambda>(i, j, v). j) ts)" by (rule cl)
  from m have len: "length rl = length m"
    by (metis length_map)
  then show "length m = length rl" by simp
  have row: "map (unstack_cell agg ts (rl ! a)) cl = map Inr (m ! a)" if "a < length rl" for a
  proof -
    from m that len have "sequence_err (map (unstack_cell agg ts (rl ! a)) cl) = Inr (m ! a)"
      by (metis nth_map)
    then show ?thesis by (simp add: sequence_err_Inr)
  qed
  show "length (m ! a) = length cl" if "a < length rl"
    using row [OF that] by (metis length_map)
  show "unstack_cell agg ts (rl ! a) (cl ! b) = Inr (m ! a ! b)"
    if "a < length rl" "b < length cl"
  proof -
    have "length (m ! a) = length cl" using row [OF that(1)] by (metis length_map)
    with row [OF that(1)] that(2) show ?thesis by (metis nth_map)
  qed
qed




lemma sum_from_ints: "sum_from (I64 a) (map I64 xs) = Inr (I64 (a + sum_list xs))"
  by (induction xs arbitrary: a) (simp_all add: bind_err_def add.assoc)

lemma agg_sum_ints: "xs \<noteq> [] \<Longrightarrow> agg_sum (map I64 xs) = Inr (I64 (sum_list xs))"
  by (cases xs) (simp_all add: agg_sum_def dropna_def sum_from_ints)










lemma set_sort_labels: "set (sort_labels ks) = set ks"
  by (simp add: sort_labels_def set_unique)




lemma sort_values_Inr:
  "sort_values df by = Inr d \<longleftrightarrow>
     set by \<subseteq> set (columns df) \<and>
     d = df\<lparr>rows := sort_key (\<lambda>r. map (\<lambda>c. cell_key (get_cell df c r)) by) (rows df)\<rparr>"
  by (auto simp: sort_values_def has_columns_def bind_err_def)






subsection \<open>Time axis: auxiliary facts\<close>

lemma less_append_same_length:
  fixes xs ys :: "'a::linorder list"
  assumes "length xs = length ys"
  shows "xs @ us < ys @ vs \<longleftrightarrow> xs < ys \<or> (xs = ys \<and> us < vs)"
  using assms by (induction xs ys rule: list_induct2) auto

lemma of_char_digit_char: "d < 10 \<Longrightarrow> of_char (digit_char d) = (48 + d :: nat)"
proof -
  assume "d < 10"
  then have "d \<in> {0, 1, 2, 3, 4, 5, 6, 7, 8, 9}" by auto
  then show ?thesis by (auto simp: digit_char_def)
qed

lemma digit_char_less: "a < 10 \<Longrightarrow> b < 10 \<Longrightarrow> digit_char a < digit_char b \<longleftrightarrow> a < b"
  by (simp add: less_char_def of_char_digit_char)

lemma digit_char_eq: "a < 10 \<Longrightarrow> b < 10 \<Longrightarrow> digit_char a = digit_char b \<longleftrightarrow> a = b"
  by (metis digit_char_less less_irrefl linorder_neqE_nat)

lemma div_mod_10_less:
  fixes a b :: nat
  shows "a < b \<longleftrightarrow> a div 10 < b div 10 \<or> (a div 10 = b div 10 \<and> a mod 10 < b mod 10)"
    and "a = b \<longleftrightarrow> a div 10 = b div 10 \<and> a mod 10 = b mod 10"
proof -
  define qa ra qb rb where "qa = a div 10" and "ra = a mod 10" and "qb = b div 10" and "rb = b mod 10"
  have a: "a = 10 * qa + ra" and b: "b = 10 * qb + rb" and r: "ra < 10" "rb < 10"
    by (simp_all add: qa_def ra_def qb_def rb_def)
  have "a < b \<longleftrightarrow> qa < qb \<or> (qa = qb \<and> ra < rb)"
    unfolding a b using r by linarith
  then show "a < b \<longleftrightarrow> a div 10 < b div 10 \<or> (a div 10 = b div 10 \<and> a mod 10 < b mod 10)"
    by (simp add: qa_def ra_def qb_def rb_def)
  show "a = b \<longleftrightarrow> a div 10 = b div 10 \<and> a mod 10 = b mod 10"
    by (metis div_mult_mod_eq)
qed

lemma str_nat_small: "n < 10 \<Longrightarrow> str_nat n = [digit_char n]"
  by (subst str_nat.simps) simp

lemma str_nat_big: "\<not> n < 10 \<Longrightarrow> str_nat n = str_nat (n div 10) @ [digit_char (n mod 10)]"
  by (subst str_nat.simps) simp

lemma str_nat_not_Nil: "str_nat n \<noteq> []"
  by (cases "n < 10") (simp_all add: str_nat_small str_nat_big)

lemma length_str_nat_one: "length (str_nat n) = 1 \<longleftrightarrow> n < 10"
  using str_nat_not_Nil [of "n div 10"]
  by (cases "n < 10") (simp_all add: str_nat_small str_nat_big)

lemma str_nat_less:
  "length (str_nat a) = length (str_nat b) \<Longrightarrow>
     (str_nat a < str_nat b \<longleftrightarrow> a < b) \<and> (str_nat a = str_nat b \<longleftrightarrow> a = b)"
proof (induction a arbitrary: b rule: str_nat.induct)
  case (1 a)
  show ?case
  proof (cases "a < 10")
    case True
    with "1.prems" have "b < 10"
      using length_str_nat_one [of a] length_str_nat_one [of b] by simp
    with True show ?thesis
      by (simp add: str_nat_small digit_char_less digit_char_eq)
  next
    case False
    with "1.prems" have b: "\<not> b < 10"
      using length_str_nat_one [of a] length_str_nat_one [of b] by simp
    note sa = str_nat_big [OF False]
    note sb = str_nat_big [OF b]
    from "1.prems" have len: "length (str_nat (a div 10)) = length (str_nat (b div 10))"
      unfolding sa sb by simp
    note IH = "1.IH" [OF False len]
    have d: "digit_char (a mod 10) < digit_char (b mod 10) \<longleftrightarrow> a mod 10 < b mod 10"
      "digit_char (a mod 10) = digit_char (b mod 10) \<longleftrightarrow> a mod 10 = b mod 10"
      by (simp_all add: digit_char_less digit_char_eq)
    note lt = div_mod_10_less(1) [of a b]
    note eq = div_mod_10_less(2) [of a b]
    have "str_nat (a div 10) @ [digit_char (a mod 10)] < str_nat (b div 10) @ [digit_char (b mod 10)]
        \<longleftrightarrow> a < b"
      unfolding less_append_same_length [OF len] lt using IH d by simp
    moreover have "str_nat (a div 10) @ [digit_char (a mod 10)] = str_nat (b div 10) @ [digit_char (b mod 10)]
        \<longleftrightarrow> a = b"
      unfolding eq using IH d by simp
    ultimately show ?thesis unfolding sa sb by blast
  qed
qed

lemma str_int_nonneg: "0 \<le> i \<Longrightarrow> str_int i = str_nat (nat i)"
  by (simp add: str_int_def)

lemma time_key_less:
  assumes "0 \<le> y" "0 \<le> y'" "length (str_int y) = length (str_int y')"
    and "0 \<le> q" "q < 10" "0 \<le> q'" "q' < 10"
  shows "time_key fr (I64 y) (I64 q) < time_key fr (I64 y') (I64 q')
         \<longleftrightarrow> y < y' \<or> (y = y' \<and> q < q')"
proof -
  have len: "length (str_nat (nat y)) = length (str_nat (nat y'))"
    using assms(1-3) by (simp add: str_int_nonneg)
  have "nat q < 10" "nat q' < 10" using assms(4-7) by simp_all
  then have lq: "length (str_nat (nat q)) = length (str_nat (nat q'))"
    using length_str_nat_one [of "nat q"] length_str_nat_one [of "nat q'"] by simp
  note Y = str_nat_less [OF len]
  note Q = str_nat_less [OF lq]
  have "time_key fr (I64 y) (I64 q) < time_key fr (I64 y') (I64 q')
        \<longleftrightarrow> str_nat (nat y) @ ''-Q'' @ str_nat (nat q) < str_nat (nat y') @ ''-Q'' @ str_nat (nat q')"
    using assms by (simp add: time_key_def str_int_nonneg)
  also have "\<dots> \<longleftrightarrow> str_nat (nat y) < str_nat (nat y')
      \<or> (str_nat (nat y) = str_nat (nat y') \<and> str_nat (nat q) < str_nat (nat q'))"
    by (simp add: less_append_same_length [OF len])
  also have "\<dots> \<longleftrightarrow> y < y' \<or> (y = y' \<and> q < q')"
    using Y Q assms by auto
  finally show ?thesis .
qed

lemma index_of_less: "x \<in> set xs \<Longrightarrow> index_of x xs < length xs"
  by (induction xs) auto

lemma index_of_append_new: "x \<notin> set xs \<Longrightarrow> index_of x (xs @ [x]) = length xs"
  by (induction xs) auto

lemma length_pad: "length (pad n r) = n"
  by (simp add: pad_def)

lemma get_cell_setitem:
  "get_cell (setitem df col vals) col r' = cell_at r' (if col \<in> set (columns df)
      then index_of col (columns df) else length (columns df))"
  by (simp add: get_cell_def setitem_def Let_def index_of_append_new)

lemma getitem_setitem:
  assumes "length vals = length (rows df)"
  shows "map (get_cell (setitem df col vals) col) (rows (setitem df col vals)) = vals"
proof -
  let ?n = "length (columns df)"
  let ?d = "setitem df col vals"
  show ?thesis
  proof (cases "col \<in> set (columns df)")
    case True
    let ?k = "index_of col (columns df)"
    have k: "?k < ?n" using True by (rule index_of_less)
    have c: "cell_at ((pad ?n r)[?k := v]) ?k = v" for r v
      using k by (simp add: cell_at_def length_pad)
    have g: "get_cell ?d col r' = cell_at r' ?k" for r'
      using True by (simp add: get_cell_setitem)
    have r: "rows ?d = map (\<lambda>(r, v). (pad ?n r)[?k := v]) (zip (rows df) vals)"
      using True by (simp add: setitem_def Let_def)
    have "map (get_cell ?d col) (rows ?d) = map snd (zip (rows df) vals)"
      unfolding r by (simp add: g c split_def)
    also have "\<dots> = vals" using assms by simp
    finally show ?thesis .
  next
    case False
    have c: "cell_at (pad ?n r @ [v]) ?n = v" for r v
      by (simp add: cell_at_def length_pad nth_append)
    have g: "get_cell ?d col r' = cell_at r' ?n" for r'
      using False by (simp add: get_cell_setitem)
    have r: "rows ?d = map (\<lambda>(r, v). pad ?n r @ [v]) (zip (rows df) vals)"
      using False by (simp add: setitem_def Let_def)
    have "map (get_cell ?d col) (rows ?d) = map snd (zip (rows df) vals)"
      unfolding r by (simp add: g c split_def)
    also have "\<dots> = vals" using assms by simp
    finally show ?thesis .
  qed
qed

lemma df_area_times:
  assumes "df_area fr df = Inr area"
  shows "get_cell area ''time'' ` set (rows area)
         = (\<lambda>r. Str (time_key fr (get_cell df ''year'' r) (get_cell df ''quarter'' r))) ` set (rows df)"
proof -
  define ts where "ts = map (\<lambda>r. Str (time_key fr (get_cell df ''year'' r) (get_cell df ''quarter'' r))) (rows df)"
  define d where "d = setitem df ''time'' ts"
  have zip: "map (\<lambda>(y, q). Str (time_key fr y q))
        (zip (map (get_cell df ''year'') (rows df)) (map (get_cell df ''quarter'') (rows df))) = ts"
    by (simp add: ts_def zip_map_map zip_same_conv_map split_def comp_def)
  from assms have s: "sort_values d [''state_name'', ''year'', ''quarter''] = Inr area"
    by (auto simp: df_area_unfold bind_err_Inr_iff getitem_def d_def zip split: if_splits)
  then have cols: "columns area = columns d" and rws: "set (rows area) = set (rows d)"
    by (auto simp: sort_values_Inr)
  have "get_cell area ''time'' = get_cell d ''time''"
    by (simp add: get_cell_def cols fun_eq_iff)
  then have "get_cell area ''time'' ` set (rows area) = set (map (get_cell d ''time'') (rows d))"
    by (simp add: rws)
  also have "map (get_cell d ''time'') (rows d) = ts"
    unfolding d_def by (rule getitem_setitem) (simp add: ts_def)
  finally show ?thesis by (simp add: ts_def)
qed

lemma sorted_sort_labels: "sorted (map cell_key (sort_labels ks))"
  by (simp add: sort_labels_def)

lemma distinct_sort_labels: "distinct (sort_labels ks)"
  by (simp add: sort_labels_def distinct_unique)

lemma sorted_str_keys: "sorted (map cell_key (map Str ss)) \<longleftrightarrow> sorted ss"
  by (induction ss) (auto simp: less_eq_prod_def)

lemma sort_labels_strings:
  assumes "set ks = Str ` T"
  shows "\<exists>ss. sort_labels ks = map Str ss \<and> sorted_wrt (<) ss \<and> set ss = T"
proof -
  define ss where "ss = map (astype_str (\<lambda>x. [])) (sort_labels ks)"
  have all: "\<forall>c \<in> set (sort_labels ks). \<exists>s. c = Str s"
    using assms by (auto simp: set_sort_labels)
  then have "map (\<lambda>c. Str (astype_str (\<lambda>x. []) c)) (sort_labels ks) = sort_labels ks"
    by (intro map_idI) auto
  then have eq: "sort_labels ks = map Str ss"
    by (simp add: ss_def comp_def)
  have "sorted ss"
    using sorted_sort_labels [of ks] unfolding eq by (simp only: sorted_str_keys)
  moreover have "distinct ss"
    using distinct_sort_labels [of ks] unfolding eq by (simp add: distinct_map)
  moreover have "set ss = T"
  proof -
    have "Str ` set ss = Str ` T"
      using assms set_sort_labels [of ks] unfolding eq by simp
    then show ?thesis by (simp add: inj_image_eq_iff inj_on_def)
  qed
  ultimately show ?thesis using eq by (auto simp: strict_sorted_iff)
qed

lemma pivot_val_row_labels:
  assumes "pivot_val fr df = Inr p"
  shows "\<exists>ss. row_labels p = map Str ss \<and> sorted_wrt (<) ss \<and>
           set ss = (\<lambda>r. time_key fr (get_cell df ''year'' r) (get_cell df ''quarter'' r)) ` set (rows df)"
proof -
  from assms obtain area rl cl m where a: "df_area fr df = Inr area"
    and u: "unstack only_value (keyed area ''time'' ''state_name'' ''total_value'') = Inr (rl, cl, m)"
    and p: "p = \<lparr>row_labels = rl, col_labels = cl, cells = fill_nan m\<rparr>"
    by (auto simp: pivot_val_unfold bind_err_Inr_iff)
  have rl: "rl = sort_labels (map (get_cell area ''time'') (rows area))"
    using unstack_Inr(1) [OF u] by (simp add: keyed_def comp_def)
  have "set (map (get_cell area ''time'') (rows area))
        = Str ` ((\<lambda>r. time_key fr (get_cell df ''year'' r) (get_cell df ''quarter'' r)) ` set (rows df))"
    using df_area_times [OF a] by (simp add: image_image)
  from sort_labels_strings [OF this] show ?thesis
    by (simp add: p rl)
qed

text \<open>
  C5 (as stated). The time axis of the area view is the index of \<^verbatim>\<open>pivot_val\<close>, which
  \<^verbatim>\<open>pivot\<close> sorts as strings; no tuple is stored. With quarters 9 and 10 of one year the
  axis puts \<^verbatim>\<open>2023-Q10\<close> before \<^verbatim>\<open>2023-Q9\<close>, against the order of the (year, quarter)
  tuples.
\<close>

theorem time_axis_order_counterexample:
  "pivot_val (\<lambda>x. ''0.0'') ex_q10
     = Inr \<lparr>row_labels = [Str ''2023-Q10'', Str ''2023-Q9''], col_labels = [Str ''Goa''],
            cells = [[F64 2], [F64 1]]\<rparr>
   \<and> time_key (\<lambda>x. ''0.0'') (I64 2023) (I64 10) < time_key (\<lambda>x. ''0.0'') (I64 2023) (I64 9)"
  by code_simp

text \<open>
  C5 (amended). The time axis of the area view is the list of the distinct strings
  \<^verbatim>\<open>year-Qquarter\<close> of the rows, in ascending lexicographic order. For non-negative
  integer years with the same number of digits and quarters of one digit this is the
  order of the (year, quarter) tuples; so (2023, 4) comes before (2024, 1).
\<close>

theorem time_axis_order:
  "(pivot_val fr df = Inr p \<longrightarrow>
      (\<exists>ss. row_labels p = map Str ss \<and> sorted_wrt (<) ss \<and>
         set ss = (\<lambda>r. time_key fr (get_cell df ''year'' r) (get_cell df ''quarter'' r))
                    ` set (rows df)))
   \<and> (0 \<le> y \<and> 0 \<le> y' \<and> length (str_int y) = length (str_int y')
        \<and> 0 \<le> q \<and> q < 10 \<and> 0 \<le> q' \<and> q' < 10 \<longrightarrow>
      (time_key fr (I64 y) (I64 q) < time_key fr (I64 y') (I64 q')
         \<longleftrightarrow> y < y' \<or> (y = y' \<and> q < q')))"
  using pivot_val_row_labels [of fr df p] time_key_less [of y y' q q' fr]
  by blast

theorem time_axis_order_witness:
  "pivot_val (\<lambda>x. ''0.0'') ex_df3 = Inr ex_pivot_val
   \<and> row_labels ex_pivot_val = [Str ''2023-Q4'', Str ''2024-Q1'']
   \<and> sorted_wrt (<) [''2023-Q4'', ''2024-Q1'']
   \<and> time_key (\<lambda>x. ''0.0'') (I64 2023) (I64 4) < time_key (\<lambda>x. ''0.0'') (I64 2024) (I64 1)"
proof -
  note T = time_axis_order [of "\<lambda>x. ''0.0''" ex_df3 ex_pivot_val 2023 2024 4 1]
  have pv: "pivot_val (\<lambda>x. ''0.0'') ex_df3 = Inr ex_pivot_val" by code_simp
  have rl: "row_labels ex_pivot_val = [Str ''2023-Q4'', Str ''2024-Q1'']"
    by (simp add: ex_pivot_val_def)
  from T pv obtain ss where "row_labels ex_pivot_val = map Str ss" and s: "sorted_wrt (<) ss"
    by blast
  with rl have "map Str ss = [Str ''2023-Q4'', Str ''2024-Q1'']" by simp
  then have "ss = [''2023-Q4'', ''2024-Q1'']"
    by (auto simp: map_eq_Cons_conv)
  with s have 3: "sorted_wrt (<) [''2023-Q4'', ''2024-Q1'']" by simp
  have len: "length (str_int 2023) = length (str_int 2024)" by code_simp
  from T len have 4: "time_key (\<lambda>x. ''0.0'') (I64 2023) (I64 4) < time_key (\<lambda>x. ''0.0'') (I64 2024) (I64 1)"
    by simp
  from pv rl 3 4 show ?thesis by blast
qed

subsection \<open>Empty selection: auxiliary facts\<close>










subsection \<open>The store: auxiliary facts\<close>

lemma intact_loaded: "intact [df1, df2, df3, df4, df5, df_cat] (loaded df1 df2 df3 df4 df5 df_cat)"
  by (simp add: intact_def loaded_def source_names_def upt_rec)

lemma intact_bind_new:
  assumes "intact src s" "x \<notin> set source_names"
  shows "intact src (bind_new x df s)"
  using assms by (auto simp: intact_def bind_new_def)

lemma intact_alias:
  assumes "intact src s" "x \<notin> set source_names" "x \<noteq> ''df2_sb''" "x \<noteq> ''df_area''"
  shows "intact src (s\<lparr>vars := (vars s)(x := v)\<rparr>)"
  using assms by (auto simp: intact_def)

lemma intact_append:
  assumes "intact src s"
  shows "intact src (s\<lparr>heap := heap s @ [df]\<rparr>)"
  using assms by (auto simp: intact_def)

lemma intact_update:
  assumes "intact src s" "length src \<le> a"
  shows "intact src (s\<lparr>heap := (heap s)[a := df]\<rparr>)"
  using assms by (auto simp: intact_def)

lemma intact_views:
  assumes "intact src s"
  shows "intact src (s\<lparr>views := v\<rparr>)"
  using assms by (auto simp: intact_def)

lemma stmt_eval_intact: "intact src s \<Longrightarrow> stmt_eval e s = Inr s' \<Longrightarrow> intact src s'"
  by (auto simp: stmt_eval_def bind_err_Inr_iff)

lemma stmt_f_intact:
  assumes "intact src s" "stmt_f sel x y s = Inr s'"
    "x \<notin> set source_names" "x \<noteq> ''df2_sb''" "x \<noteq> ''df_area''"
  shows "intact src s'"
  using assms
  by (auto simp: stmt_f_def bind_err_Inr_iff intact_bind_new intact_alias split: if_splits)

lemma stmt_new_intact:
  assumes "intact src s" "stmt_new x e y s = Inr s'" "x \<notin> set source_names"
  shows "intact src s'"
  using assms by (auto simp: stmt_new_def bind_err_Inr_iff intact_bind_new)

lemma stmt_temp_intact:
  assumes "intact src s" "stmt_temp e y s = Inr s'"
  shows "intact src s'"
  using assms by (auto simp: stmt_temp_def bind_err_Inr_iff intact_append)

lemma stmt_setitem_intact:
  assumes "intact src s" "stmt_setitem x col e s = Inr s'" "x = ''df2_sb'' \<or> x = ''df_area''"
  shows "intact src s'"
proof -
  from assms(2) obtain a df where a: "vars s x = Some a" and s': "s' = s\<lparr>heap := (heap s)[a := df]\<rparr>"
    by (auto simp: stmt_setitem_def bind_err_Inr_iff split: option.splits)
  from assms(1,3) a have "length src \<le> a" by (auto simp: intact_def)
  with assms(1) show ?thesis unfolding s' by (rule intact_update)
qed

lemma stmt_view_intact:
  assumes "intact src s" "stmt_view x e y s = Inr s'"
  shows "intact src s'"
  using assms by (auto simp: stmt_view_def bind_err_Inr_iff intact_views)

lemma script_intact:
  assumes "stmt \<in> set (script fr sel_s sel_c)" "intact src s" "stmt s = Inr s'"
  shows "intact src s'"
proof -
  have n: "''df1_f'' \<notin> set source_names" "''df3_f'' \<notin> set source_names"
    "''df4_f'' \<notin> set source_names" "''df5_f'' \<notin> set source_names"
    "''df_cat_f'' \<notin> set source_names" "''df2_sb'' \<notin> set source_names"
    "''df_area'' \<notin> set source_names"
    by (simp_all add: source_names_def)
  from assms(1) consider
      (ev) e :: "state \<Rightarrow> error + string list" where "stmt = stmt_eval e"
    | (ev2) e :: "state \<Rightarrow> error + cell list" where "stmt = stmt_eval e"
    | (f) x y where "stmt = stmt_f sel_s x y" "x \<notin> set source_names" "x \<noteq> ''df2_sb''" "x \<noteq> ''df_area''"
    | (new) x e y where "stmt = stmt_new x e y" "x \<notin> set source_names"
    | (temp) e y where "stmt = stmt_temp e y"
    | (setitem) x col e where "stmt = stmt_setitem x col e" "x = ''df2_sb'' \<or> x = ''df_area''"
    | (view) x e y where "stmt = stmt_view x e y"
    unfolding script_def using n by (simp only: set_simps insert_iff empty_iff) blast
  then show ?thesis
  proof cases
    case ev then show ?thesis using assms(2,3) by (auto intro: stmt_eval_intact)
  next
    case ev2 then show ?thesis using assms(2,3) by (auto intro: stmt_eval_intact)
  next
    case f then show ?thesis using assms(2,3) by (auto intro: stmt_f_intact)
  next
    case new then show ?thesis using assms(2,3) by (auto intro: stmt_new_intact)
  next
    case temp then show ?thesis using assms(2,3) by (auto intro: stmt_temp_intact)
  next
    case setitem then show ?thesis using assms(2,3) by (auto intro: stmt_setitem_intact)
  next
    case view then show ?thesis using assms(2,3) by (auto intro: stmt_view_intact)
  qed
qed

lemma exec_intact:
  assumes "\<And>stmt s s'. stmt \<in> set stmts \<Longrightarrow> intact src s \<Longrightarrow> stmt s = Inr s' \<Longrightarrow> intact src s'"
    and "intact src s"
  shows "intact src (fst (exec stmts s))"
  using assms
proof (induction stmts arbitrary: s)
  case Nil
  then show ?case by simp
next
  case (Cons stmt stmts)
  show ?case
  proof (cases "stmt s")
    case (Inl e)
    with Cons.prems(2) show ?thesis by simp
  next
    case (Inr s')
    have "intact src s'" using Cons.prems(1) [of stmt s s'] Cons.prems(2) Inr by simp
    then have "intact src (fst (exec stmts s'))"
      using Cons.IH [of s'] Cons.prems(1) by auto
    with Inr show ?thesis by simp
  qed
qed

text \<open>
  C9. At every point of a run of the script (after any number of its statements, and
  whether or not the run ends in an exception), the six source frames are what they were
  at load time, and the six source variables still name them. The two column assignments
  write to \<open>df2_sb\<close> and \<open>df_area\<close>, which name copies.
\<close>

theorem sources_never_mutated:
  "take 6 (heap (fst (exec (take n (script float_repr selected_states selected_cats))
                            (loaded df1 df2 df3 df4 df5 df_cat))))
     = [df1, df2, df3, df4, df5, df_cat]
   \<and> map (vars (fst (exec (take n (script float_repr selected_states selected_cats))
                            (loaded df1 df2 df3 df4 df5 df_cat)))) source_names
     = [Some 0, Some 1, Some 2, Some 3, Some 4, Some 5]"
proof -
  let ?src = "[df1, df2, df3, df4, df5, df_cat]"
  let ?s = "fst (exec (take n (script float_repr selected_states selected_cats))
                  (loaded df1 df2 df3 df4 df5 df_cat))"
  have "intact ?src ?s"
  proof (rule exec_intact)
    show "intact ?src (loaded df1 df2 df3 df4 df5 df_cat)" by (rule intact_loaded)
  next
    fix stmt s s'
    assume "stmt \<in> set (take n (script float_repr selected_states selected_cats))"
    then have "stmt \<in> set (script float_repr selected_states selected_cats)"
      by (rule in_set_takeD)
    moreover assume "intact ?src s" "stmt s = Inr s'"
    ultimately show "intact ?src s'" by (rule script_intact)
  qed
  then have a: "take (length ?src) (heap ?s) = ?src"
    and b: "map (vars ?s) source_names = map Some [0..<length ?src]"
    unfolding intact_def by blast+
  have l: "length ?src = 6" by simp
  have u: "map Some [0..<6] = [Some 0, Some 1, Some 2, Some 3, Some 4, Some (5::nat)]"
    by code_simp
  from a [unfolded l] b [unfolded l u] show ?thesis by blast
qed

text \<open>A run to the end, on the example frames.\<close>

lemma script_example:
  "snd ex_run = None
   \<and> map (frame_of (fst ex_run)) [''df2'', ''df3'']  = [Inr ex_df2, Inr ex_df3]
   \<and> map (\<lambda>x. bind_err (frame_of (fst ex_run) x) (\<lambda>df. Inr (columns df))) [''df2_sb'', ''df_area'']
       = [Inr [''brand'', ''total_registered_users'', ''avg_percentage_usage'', ''usage_tier''],
          Inr [''state_name'', ''year'', ''quarter'', ''total_value'', ''time'']]"
  by code_simp




end
